theory Spec2Isabelle
  imports Complex_Main "HOL-Library.Multiset" "HOL-Library.AList"
begin

section \<open>The JavaScript runtime, as far as the client relies on it\<close>

text \<open>
  The client is TypeScript running on a JavaScript engine. The pieces of the language
  that decide how the source behaves are written out here: property lookup on an object
  literal (which also finds what \<open>Object.prototype\<close> provides), truthiness of the
  operands of \<open>||\<close>, the order in which \<open>Object.entries\<close> lists the keys of an object,
  \<open>Set\<close> and \<open>Map\<close> built from arrays, and \<open>Array.prototype.sort\<close> with a comparator.
\<close>

datatype exn = TypeError

text \<open>
  An object literal such as \<open>{ critical: 0, high: 1 }\<close> or \<open>{}\<close> has \<open>Object.prototype\<close>
  as its prototype. \<open>obj[k]\<close> evaluates to the object's own property \<open>k\<close> when there is
  one, to the member of \<open>Object.prototype\<close> of that name when \<open>k\<close> is one of the names
  below (a built-in function, or the prototype object itself for \<open>__proto__\<close>), and to
  \<open>undefined\<close> otherwise.
\<close>

definition object_prototype_keys :: "string list" where
  "object_prototype_keys =
     [''constructor'', ''__proto__'', ''hasOwnProperty'', ''isPrototypeOf'',
      ''propertyIsEnumerable'', ''toLocaleString'', ''toString'', ''valueOf'',
      ''__defineGetter__'', ''__defineSetter__'', ''__lookupGetter__'',
      ''__lookupSetter__'']"

datatype 'a js_prop = Own 'a | Inherited | Undefined

definition js_get :: "(string \<times> 'a) list \<Rightarrow> string \<Rightarrow> 'a js_prop" where
  "js_get obj k =
     (case map_of obj k of
        Some v \<Rightarrow> Own v
      | None \<Rightarrow> if k \<in> set object_prototype_keys then Inherited else Undefined)"

text \<open>
  \<open>Object.entries\<close> and \<open>Object.keys\<close> list the own keys that are array indices first
  (canonical decimal numerals up to \<open>2^32 - 2\<close>), in ascending numeric order, and then
  the other string keys in the order in which they were created. An object is kept as
  the association list of its own properties in creation order.
\<close>

definition index_value :: "string \<Rightarrow> nat" where
  "index_value s = foldl (\<lambda>n c. 10 * n + (of_char c - 48)) 0 s"

definition is_array_index :: "string \<Rightarrow> bool" where
  "is_array_index s =
     (s \<noteq> [] \<and> list_all (\<lambda>c. c \<in> set ''0123456789'') s
      \<and> (s = ''0'' \<or> hd s \<noteq> CHR ''0'') \<and> index_value s < 2 ^ 32 - 1)"

definition Object_entries :: "(string \<times> 'a) list \<Rightarrow> (string \<times> 'a) list" where
  "Object_entries obj =
     sort_key (\<lambda>kv. index_value (fst kv)) (filter (\<lambda>kv. is_array_index (fst kv)) obj)
     @ filter (\<lambda>kv. \<not> is_array_index (fst kv)) obj"

text \<open>
  \<open>[...new Set(xs)]\<close>: the distinct elements of \<open>xs\<close> in order of first appearance.
\<close>

definition Set_spread :: "'a list \<Rightarrow> 'a list" where
  "Set_spread xs = foldl (\<lambda>acc x. if x \<in> set acc then acc else acc @ [x]) [] xs"

text \<open>
  \<open>new Map(entries).get(k)\<close>: of several entries with the same key the last one wins.
\<close>

definition Map_get :: "('k \<times> 'v) list \<Rightarrow> 'k \<Rightarrow> 'v option" where
  "Map_get entries k = map_of (rev entries) k"

text \<open>
  \<open>Array.prototype.sort(comparefn)\<close>. A comparator's result is a number, \<open>None\<close> standing
  for \<open>NaN\<close>, which the sort reads as \<open>+0\<close>. The language requires the sort to be stable,
  and for a consistent comparator the result is then determined: it is the one computed
  by the stable insertion sort below, where an element stays in front of a later one
  unless the comparator puts it strictly after. For a comparator that is not consistent
  the language leaves the order to the engine; the result is still a rearrangement of
  the input, and it is the input itself when no comparison answers anything but zero
  or \<open>NaN\<close>. Beyond these two facts nothing below is said about such a comparator.
\<close>

definition sort_compare :: "('a \<Rightarrow> 'a \<Rightarrow> rat option) \<Rightarrow> 'a \<Rightarrow> 'a \<Rightarrow> rat" where
  "sort_compare comparefn x y = (case comparefn x y of None \<Rightarrow> 0 | Some v \<Rightarrow> v)"

fun sort_insert :: "('a \<Rightarrow> 'a \<Rightarrow> rat option) \<Rightarrow> 'a \<Rightarrow> 'a list \<Rightarrow> 'a list" where
  "sort_insert comparefn x [] = [x]"
| "sort_insert comparefn x (y # ys) =
     (if sort_compare comparefn x y \<le> 0 then x # y # ys
      else y # sort_insert comparefn x ys)"

definition Array_sort :: "('a \<Rightarrow> 'a \<Rightarrow> rat option) \<Rightarrow> 'a list \<Rightarrow> 'a list" where
  "Array_sort comparefn xs = foldr (sort_insert comparefn) xs []"

text \<open>
  \<open>String.prototype.localeCompare\<close> is the host's collation, which orders strings by
  their collation keys. The key function \<open>ck\<close> is a parameter of everything that sorts
  by a string field.
\<close>

definition localeCompare :: "(string \<Rightarrow> 'k::linorder) \<Rightarrow> string \<Rightarrow> string \<Rightarrow> int" where
  "localeCompare ck a b = (if ck a < ck b then - 1 else if ck a = ck b then 0 else 1)"

text \<open>
  Numbers are IEEE 754 doubles. A count is an integer-valued double; \<open>a + b\<close> on two of
  them is the exact sum rounded to the nearest double, ties to the one with an even
  significand, and a sum beyond the largest double is an infinity. Up to \<open>2^53\<close> every
  integer is a double; from there on the doubles lie \<open>spacing\<close> apart.
\<close>

datatype js_number = Finite int | PosInfinity | NegInfinity

fun spacing :: "nat \<Rightarrow> nat" where
  "spacing m = (if m < 2 ^ 53 then 1 else 2 * spacing (m div 2))"

declare spacing.simps [simp del]

definition round_nat :: "nat \<Rightarrow> nat" where
  "round_nat m =
     (let q = spacing m; d = m div q; r = m mod q
      in if 2 * r < q \<or> (2 * r = q \<and> even d) then d * q else (d + 1) * q)"

definition to_double :: "int \<Rightarrow> js_number" where
  "to_double x =
     (let m = round_nat (nat \<bar>x\<bar>)
      in if 2 ^ 1024 \<le> m then (if x < 0 then NegInfinity else PosInfinity)
         else Finite (if x < 0 then - int m else int m))"

text \<open>\<open>sum + b\<close> for an accumulator \<open>sum\<close> and a finite \<open>b\<close>.\<close>

fun js_plus :: "js_number \<Rightarrow> int \<Rightarrow> js_number" where
  "js_plus (Finite a) b = to_double (a + b)"
| "js_plus PosInfinity b = PosInfinity"
| "js_plus NegInfinity b = NegInfinity"

text \<open>
  Truthiness of a string-or-undefined value, and \<open>a || b\<close> on such values: the empty
  string and \<open>undefined\<close> are falsy.
\<close>

definition truthy :: "string option \<Rightarrow> bool" where
  "truthy v = (case v of None \<Rightarrow> False | Some s \<Rightarrow> s \<noteq> [])"

definition js_or :: "string option \<Rightarrow> string option \<Rightarrow> string option" where
  "js_or a b = (if truthy a then a else b)"


section \<open>services/api.ts: the data exchanged with the backend\<close>

text \<open>
  The interfaces of \<open>api.ts\<close>, field by field. A \<open>number\<close> that counts something is an
  integer (one that is a double). A confidence arrives as a JSON number, so it is a finite fraction (JSON has
  neither \<open>NaN\<close> nor infinities); the difference of two of them, which is all the
  report engine computes with them, has the sign of the exact difference.
  \<open>TestResult\<close> is the shape the workflow controller keeps of a test-connection
  response.
\<close>

record ConnectionParams =
  db_type :: string
  host :: string
  port :: int
  database :: string
  schema_name :: string
  user :: string
  password :: string

record TestResult =
  success :: bool
  message :: string

record TestConnectionResponse = TestResult +
  tables_found :: int

record PIIFinding =
  table :: string
  column :: string
  pii_type :: string
  confidence :: rat
  classifier :: string
  risk_level :: string
  encryption_status :: string
  purpose :: string

record ConsentMapping =
  table :: string
  column :: string
  purpose :: string
  subject_id_column :: "string option"

record HeatmapCell =
  table :: string
  pii_type :: string
  found :: bool
  confidence :: rat

record TableStats =
  table :: string
  row_count :: int
  pii_columns :: int

record ScanSummary =
  tables_scanned :: int
  tables_with_pii :: int
  total_pii_columns :: int
  consent_fields :: int
  high_risk_fields :: int
  pii_types_found :: "string list"

record ScanResponse =
  scan_id :: string
  score :: int
  summary :: ScanSummary
  findings :: "PIIFinding list"
  consent_mappings :: "ConsentMapping list"
  heatmap :: "HeatmapCell list"
  table_stats :: "TableStats list"
  estimated_data_subjects :: int
  scanned_at :: string

text \<open>
  What a rejected request carries, as the handlers read it: the value of
  \<open>err?.response?.data?.detail\<close> (\<open>None\<close> when any link of the chain is missing) and
  \<open>err.message\<close>. The HTTP client rejects with an error object, so \<open>err.message\<close>
  itself never fails.
\<close>

record RequestError =
  detail :: "string option"
  message :: "string option"


section \<open>components/ConnectionForm.tsx\<close>

record DbDefault =
  port :: int
  database :: string

definition DEFAULT_PARAMS :: ConnectionParams where
  "DEFAULT_PARAMS =
     \<lparr>db_type = ''postgresql'', host = ''localhost'', ConnectionParams.port = 5432,
      ConnectionParams.database = ''postgres'', schema_name = ''redacted_db'',
      user = [], password = []\<rparr>"

definition DB_DEFAULTS_postgresql :: DbDefault where
  "DB_DEFAULTS_postgresql = \<lparr>port = 5432, database = ''postgres''\<rparr>"

definition DB_DEFAULTS :: "(string \<times> DbDefault) list" where
  "DB_DEFAULTS =
     [(''postgresql'', DB_DEFAULTS_postgresql),
      (''mysql'', \<lparr>port = 3306, database = ''testdb''\<rparr>),
      (''snowflake'', \<lparr>port = 443, database = []\<rparr>),
      (''mongodb'', \<lparr>port = 27017, database = ''test''\<rparr>)]"

text \<open>The values of the \<open>option\<close> elements of the database-type \<open>select\<close>.\<close>

definition db_type_options :: "string list" where
  "db_type_options = [''postgresql'', ''mysql'', ''snowflake'', ''mongodb'']"

text \<open>
  \<open>const defaults = DB_DEFAULTS[dbType] || DB_DEFAULTS.postgresql\<close>. For a name that
  \<open>Object.prototype\<close> provides, the left operand is a built-in object (truthy) that has
  neither \<open>port\<close> nor \<open>database\<close>; the new parameters are then no \<open>ConnectionParams\<close>
  and the model returns \<open>None\<close>.
\<close>

definition new_defaults :: "string \<Rightarrow> DbDefault option" where
  "new_defaults dbType =
     (case js_get DB_DEFAULTS dbType of
        Own d \<Rightarrow> Some d
      | Undefined \<Rightarrow> Some DB_DEFAULTS_postgresql
      | Inherited \<Rightarrow> None)"

text \<open>\<open>DB_DEFAULTS[p.db_type]?.database\<close>\<close>

definition previous_default_database :: "ConnectionParams \<Rightarrow> string option" where
  "previous_default_database p =
     (case js_get DB_DEFAULTS (db_type p) of
        Own d \<Rightarrow> Some (database d)
      | Inherited \<Rightarrow> None
      | Undefined \<Rightarrow> None)"

definition handleDbTypeChange :: "string \<Rightarrow> ConnectionParams \<Rightarrow> ConnectionParams option" where
  "handleDbTypeChange dbType p =
     (case new_defaults dbType of
        None \<Rightarrow> None
      | Some defaults \<Rightarrow>
          Some (p\<lparr>db_type := dbType,
                  ConnectionParams.port := port defaults,
                  ConnectionParams.database :=
                    (if Some (ConnectionParams.database p) = previous_default_database p
                     then database defaults else ConnectionParams.database p)\<rparr>))"

definition canTest :: "ConnectionParams \<Rightarrow> bool" where
  "canTest params =
     (host params \<noteq> [] \<and> ConnectionParams.database params \<noteq> []
      \<and> user params \<noteq> [] \<and> password params \<noteq> [])"

text \<open>\<open>const canScan = testResult?.success === true\<close>\<close>

definition canScan :: "TestResult option \<Rightarrow> bool" where
  "canScan testResult = (case testResult of None \<Rightarrow> False | Some r \<Rightarrow> success r)"

text \<open>The \<open>disabled\<close> attributes of the two buttons.\<close>

definition test_button_disabled :: "ConnectionParams \<Rightarrow> bool \<Rightarrow> bool \<Rightarrow> bool" where
  "test_button_disabled params isTesting isScanning =
     (\<not> canTest params \<or> isTesting \<or> isScanning)"

definition scan_button_disabled :: "TestResult option \<Rightarrow> bool \<Rightarrow> bool" where
  "scan_button_disabled testResult isScanning = (\<not> canScan testResult \<or> isScanning)"


section \<open>App.tsx: the workflow controller\<close>

datatype AppState = Connect | Scanning | Results

record App =
  state :: AppState
  scanResult :: "ScanResponse option"
  testResult :: "TestResult option"
  isTesting :: bool
  isScanning :: bool
  progressMsg :: string
  error :: "string option"

definition initial :: App where
  "initial =
     \<lparr>state = Connect, scanResult = None, testResult = None, isTesting = False,
      isScanning = False, progressMsg = [], error = None\<rparr>"

text \<open>
  \<open>err?.response?.data?.detail || err.message || fallback\<close>, with a non-empty literal as
  the fallback, so that the whole expression is a string.
\<close>

definition error_text :: "RequestError \<Rightarrow> string \<Rightarrow> string" where
  "error_text err fallback =
     (case js_or (js_or (detail err) (RequestError.message err)) (Some fallback) of
        Some msg \<Rightarrow> msg
      | None \<Rightarrow> [])"

text \<open>
  An asynchronous handler runs in two parts: what it does before \<open>await\<close>, and what it
  does once the request has settled (\<open>Inr\<close> the response, \<open>Inl\<close> the rejection), the
  \<open>finally\<close> block included.
\<close>

definition handleTest_begin :: "App \<Rightarrow> App" where
  "handleTest_begin s = s\<lparr>isTesting := True, testResult := None, error := None\<rparr>"

definition handleTest_settle :: "RequestError + TestConnectionResponse \<Rightarrow> App \<Rightarrow> App" where
  "handleTest_settle outcome s =
     (case outcome of
        Inr res \<Rightarrow> s\<lparr>testResult := Some (TestResult.truncate res)\<rparr>
      | Inl err \<Rightarrow>
          s\<lparr>testResult :=
              Some \<lparr>success = False, TestResult.message = error_text err ''Connection failed''\<rparr>\<rparr>)
     \<lparr>isTesting := False\<rparr>"

definition handleTest :: "RequestError + TestConnectionResponse \<Rightarrow> App \<Rightarrow> App" where
  "handleTest outcome s = handleTest_settle outcome (handleTest_begin s)"

definition handleScan_begin :: "App \<Rightarrow> App" where
  "handleScan_begin s =
     s\<lparr>isScanning := True, error := None, progressMsg := ''Connecting to database...'',
       state := Scanning\<rparr>
      \<lparr>progressMsg := ''Running PII classifiers across all tables...''\<rparr>"

definition handleScan_settle :: "RequestError + ScanResponse \<Rightarrow> App \<Rightarrow> App" where
  "handleScan_settle outcome s =
     (case outcome of
        Inr res \<Rightarrow> s\<lparr>scanResult := Some res, state := Results\<rparr>
      | Inl err \<Rightarrow> s\<lparr>error := Some (error_text err ''Scan failed''), state := Connect\<rparr>)
     \<lparr>isScanning := False\<rparr>"

definition handleScan :: "RequestError + ScanResponse \<Rightarrow> App \<Rightarrow> App" where
  "handleScan outcome s = handleScan_settle outcome (handleScan_begin s)"

definition handleNewScan :: "App \<Rightarrow> App" where
  "handleNewScan s = s\<lparr>state := Connect, scanResult := None, testResult := None, error := None\<rparr>"

text \<open>
  What the user can do. The connection form, and with it both buttons, is rendered in
  state \<open>connect\<close> only; the report, and with it the new-scan button, in state
  \<open>results\<close> with a scan result present. A button that is disabled does not fire.
\<close>

definition form_shown :: "App \<Rightarrow> bool" where
  "form_shown s = (state s = Connect)"

definition scan_action_enabled :: "App \<Rightarrow> bool" where
  "scan_action_enabled s =
     (form_shown s \<and> \<not> scan_button_disabled (testResult s) (isScanning s))"

definition test_action_enabled :: "ConnectionParams \<Rightarrow> App \<Rightarrow> bool" where
  "test_action_enabled params s =
     (form_shown s \<and> \<not> test_button_disabled params (isTesting s) (isScanning s))"

datatype event =
    TestClick ConnectionParams
  | TestSettled "RequestError + TestConnectionResponse"
  | ScanClick ConnectionParams
  | ScanSettled "RequestError + ScanResponse"
  | NewScanClick

fun possible :: "App \<Rightarrow> event \<Rightarrow> bool" where
  "possible s (TestClick params) = test_action_enabled params s"
| "possible s (TestSettled outcome) = isTesting s"
| "possible s (ScanClick params) = scan_action_enabled s"
| "possible s (ScanSettled outcome) = isScanning s"
| "possible s NewScanClick = (state s = Results \<and> scanResult s \<noteq> None)"

fun fire :: "event \<Rightarrow> App \<Rightarrow> App" where
  "fire (TestClick params) s = handleTest_begin s"
| "fire (TestSettled outcome) s = handleTest_settle outcome s"
| "fire (ScanClick params) s = handleScan_begin s"
| "fire (ScanSettled outcome) s = handleScan_settle outcome s"
| "fire NewScanClick s = handleNewScan s"

inductive reachable :: "App \<Rightarrow> bool" where
  start: "reachable initial"
| step: "reachable s \<Longrightarrow> possible s e \<Longrightarrow> reachable (fire e s)"


section \<open>components/ComplianceReport.tsx: the report engine\<close>

datatype SortField = SortTable | SortColumn | SortPiiType | SortConfidence | SortRiskLevel
datatype RiskFilter = FilterAll | FilterCritical | FilterHigh
datatype ViewMode = Grouped | Flat

record ViewState =
  sortField :: SortField
  sortAsc :: bool
  riskFilter :: RiskFilter
  viewMode :: ViewMode
  expandedTables :: "string list"

definition initial_view :: ViewState where
  "initial_view =
     \<lparr>sortField = SortRiskLevel, sortAsc = True, riskFilter = FilterAll,
      viewMode = Grouped, expandedTables = []\<rparr>"

definition RISK_ORDER :: "(string \<times> int) list" where
  "RISK_ORDER = [(''critical'', 0), (''high'', 1), (''medium'', 2), (''low'', 3)]"

subsection \<open>Heatmap\<close>

record Heatmap =
  tables :: "string list"
  piiTypes :: "string list"
  lookup :: "(string \<times> HeatmapCell) list"

text \<open>The template literal \<open>`${table}|${pii_type}`\<close>.\<close>

definition heatmap_key :: "string \<Rightarrow> string \<Rightarrow> string" where
  "heatmap_key tbl pt = tbl @ ''|'' @ pt"

definition heatmap_of :: "ScanResponse \<Rightarrow> Heatmap" where
  "heatmap_of data =
     \<lparr>tables = Set_spread (map HeatmapCell.table (heatmap data)),
      piiTypes = Set_spread (map HeatmapCell.pii_type (heatmap data)),
      lookup = map (\<lambda>h. (heatmap_key (HeatmapCell.table h) (HeatmapCell.pii_type h), h))
                 (heatmap data)\<rparr>"

text \<open>
  The body of the heatmap table: one row per table, one cell per PII type, each cell
  the result of \<open>lookup.get\<close>; a cell is drawn as found when \<open>cell?.found\<close> is truthy.
\<close>

definition heatmap_cell :: "Heatmap \<Rightarrow> string \<Rightarrow> string \<Rightarrow> HeatmapCell option" where
  "heatmap_cell hm tbl pt = Map_get (lookup hm) (heatmap_key tbl pt)"

definition cell_found :: "HeatmapCell option \<Rightarrow> bool" where
  "cell_found cell = (case cell of None \<Rightarrow> False | Some c \<Rightarrow> found c)"

definition heatmap_rows :: "Heatmap \<Rightarrow> (string \<times> (string \<times> HeatmapCell option) list) list" where
  "heatmap_rows hm =
     map (\<lambda>tbl. (tbl, map (\<lambda>pt. (pt, heatmap_cell hm tbl pt)) (piiTypes hm))) (tables hm)"

definition heatmap_section ::
  "ScanResponse \<Rightarrow> (string \<times> (string \<times> HeatmapCell option) list) list option" where
  "heatmap_section data =
     (if length (piiTypes (heatmap_of data)) > 0 then Some (heatmap_rows (heatmap_of data))
      else None)"

subsection \<open>Sorted and filtered findings\<close>

definition apply_filter :: "RiskFilter \<Rightarrow> PIIFinding list \<Rightarrow> PIIFinding list" where
  "apply_filter rf items =
     (if rf = FilterCritical then filter (\<lambda>f. risk_level f = ''critical'') items
      else if rf = FilterHigh
        then filter (\<lambda>f. risk_level f = ''critical'' \<or> risk_level f = ''high'') items
      else items)"

text \<open>
  \<open>RISK_ORDER[r] ?? 4\<close> as an operand of the subtraction: a number, or a value that
  subtraction turns into \<open>NaN\<close> (\<open>None\<close>) when the lookup finds a member of
  \<open>Object.prototype\<close>, which is not nullish.
\<close>

definition risk_rank :: "string \<Rightarrow> rat option" where
  "risk_rank r =
     (case js_get RISK_ORDER r of
        Own n \<Rightarrow> Some (of_int n)
      | Undefined \<Rightarrow> Some 4
      | Inherited \<Rightarrow> None)"

definition js_minus :: "rat option \<Rightarrow> rat option \<Rightarrow> rat option" where
  "js_minus a b =
     (case a of None \<Rightarrow> None | Some x \<Rightarrow> (case b of None \<Rightarrow> None | Some y \<Rightarrow> Some (x - y)))"

text \<open>\<open>a[sortField] ?? ''\<close> for the three string fields; the fields are never nullish.\<close>

fun sort_text :: "SortField \<Rightarrow> PIIFinding \<Rightarrow> string" where
  "sort_text SortTable f = PIIFinding.table f"
| "sort_text SortColumn f = PIIFinding.column f"
| "sort_text SortPiiType f = PIIFinding.pii_type f"
| "sort_text SortConfidence f = []"
| "sort_text SortRiskLevel f = []"

definition compare_findings ::
  "(string \<Rightarrow> 'k::linorder) \<Rightarrow> SortField \<Rightarrow> bool \<Rightarrow> PIIFinding \<Rightarrow> PIIFinding \<Rightarrow> rat option" where
  "compare_findings ck sf asc a b =
     (let cmp =
        (if sf = SortConfidence then Some (PIIFinding.confidence a - PIIFinding.confidence b)
         else if sf = SortRiskLevel
           then js_minus (risk_rank (risk_level a)) (risk_rank (risk_level b))
         else Some (of_int (localeCompare ck (sort_text sf a) (sort_text sf b))))
      in if asc then cmp else map_option uminus cmp)"

definition apply_sort ::
  "(string \<Rightarrow> 'k::linorder) \<Rightarrow> SortField \<Rightarrow> bool \<Rightarrow> PIIFinding list \<Rightarrow> PIIFinding list" where
  "apply_sort ck sf asc items = Array_sort (compare_findings ck sf asc) items"

definition sortedFindings ::
  "(string \<Rightarrow> 'k::linorder) \<Rightarrow> ViewState \<Rightarrow> ScanResponse \<Rightarrow> PIIFinding list" where
  "sortedFindings ck v data =
     apply_sort ck (sortField v) (sortAsc v) (apply_filter (riskFilter v) (findings data))"

subsection \<open>Findings grouped by table\<close>

text \<open>
  The loop body \<open>if (!groups[f.table]) groups[f.table] = []; groups[f.table].push(f)\<close>
  on the object \<open>groups\<close>, which starts as \<open>{}\<close>. An own property is an array (truthy)
  and receives the finding. A name found on \<open>Object.prototype\<close> is truthy too, so no
  array is created, and calling its missing \<open>push\<close> throws a \<open>TypeError\<close>.
\<close>

definition group_step ::
  "(string \<times> PIIFinding list) list \<Rightarrow> PIIFinding \<Rightarrow> exn + (string \<times> PIIFinding list) list" where
  "group_step groups f =
     (case js_get groups (PIIFinding.table f) of
        Own arr \<Rightarrow> Inr (AList.update (PIIFinding.table f) (arr @ [f]) groups)
      | Undefined \<Rightarrow> Inr (AList.update (PIIFinding.table f) ([] @ [f]) groups)
      | Inherited \<Rightarrow> Inl TypeError)"

fun group_loop ::
  "(string \<times> PIIFinding list) list \<Rightarrow> PIIFinding list \<Rightarrow> exn + (string \<times> PIIFinding list) list" where
  "group_loop groups [] = Inr groups"
| "group_loop groups (f # fs) =
     (case group_step groups f of Inl e \<Rightarrow> Inl e | Inr groups' \<Rightarrow> group_loop groups' fs)"

definition groupedFindings :: "PIIFinding list \<Rightarrow> exn + (string \<times> PIIFinding list) list" where
  "groupedFindings items = group_loop [] items"

subsection \<open>Aggregates\<close>

text \<open>
  The two \<open>reduce\<close> calls over the table statistics, each addition a double addition.
  The figures are shown through \<open>toLocaleString\<close>, which prints different numbers
  differently.
\<close>

definition data_volume :: "TableStats list \<Rightarrow> js_number" where
  "data_volume stats = foldl (\<lambda>sum t. js_plus sum (max 0 (row_count t))) (Finite 0) stats"

definition total_records :: "TableStats list \<Rightarrow> js_number" where
  "total_records stats = foldl (\<lambda>sum t. js_plus sum (row_count t)) (Finite 0) stats"

subsection \<open>The rendered report\<close>

record VolumeSection =
  shown_total_records :: js_number
  shown_rows :: "TableStats list"

record Report =
  card_data_volume :: js_number
  heatmap_part :: "(string \<times> (string \<times> HeatmapCell option) list) list option"
  findings_count :: nat
  grouped_part :: "(string \<times> PIIFinding list) list option"
  flat_part :: "PIIFinding list option"
  consent_part :: "ConsentMapping list option"
  volume_part :: "VolumeSection option"

text \<open>
  One render of the component. The memoised values are computed on every render,
  whatever the view mode, so an exception in the grouping is an exception of the
  render.
\<close>

definition ComplianceReport ::
  "(string \<Rightarrow> 'k::linorder) \<Rightarrow> ViewState \<Rightarrow> ScanResponse \<Rightarrow> exn + Report" where
  "ComplianceReport ck v data =
     (case groupedFindings (sortedFindings ck v data) of
        Inl e \<Rightarrow> Inl e
      | Inr groups \<Rightarrow>
          Inr \<lparr>card_data_volume = data_volume (table_stats data),
               heatmap_part = heatmap_section data,
               findings_count = length (sortedFindings ck v data),
               grouped_part =
                 (if viewMode v = Grouped \<and> riskFilter v = FilterAll
                  then Some (Object_entries groups) else None),
               flat_part =
                 (if viewMode v = Flat \<or> riskFilter v \<noteq> FilterAll
                  then Some (sortedFindings ck v data) else None),
               consent_part =
                 (if length (consent_mappings data) > 0 then Some (consent_mappings data)
                  else None),
               volume_part =
                 (if length (table_stats data) > 0
                  then Some \<lparr>shown_total_records = total_records (table_stats data),
                             shown_rows = table_stats data\<rparr>
                  else None)\<rparr>)"


section \<open>Reference descriptions and sample data\<close>

text \<open>
  What grouping by table is meant to produce, stated without the loop: one group per
  distinct table name, in order of first appearance, each holding the findings of that
  table in the order of the input.
\<close>

definition group_spec :: "PIIFinding list \<Rightarrow> (string \<times> PIIFinding list) list" where
  "group_spec items =
     map (\<lambda>t. (t, filter (\<lambda>f. PIIFinding.table f = t) items))
       (Set_spread (map PIIFinding.table items))"

text \<open>
  The rank the risk comparator works with when the lookup in \<open>RISK_ORDER\<close> does not
  reach \<open>Object.prototype\<close>: the four known levels in their order, and 4 for anything
  else.
\<close>

definition rank_of :: "string \<Rightarrow> rat" where
  "rank_of r = (case map_of RISK_ORDER r of Some n \<Rightarrow> of_int n | None \<Rightarrow> 4)"

text \<open>
  Two findings have the same sort key for a sort field when the comparator has nothing
  to tell them apart by: equal confidence, equal value of \<open>RISK_ORDER[r] ?? 4\<close>, or
  strings with equal collation keys.
\<close>

definition same_key ::
  "(string \<Rightarrow> 'k::linorder) \<Rightarrow> SortField \<Rightarrow> PIIFinding \<Rightarrow> PIIFinding \<Rightarrow> bool" where
  "same_key ck sf a b =
     (if sf = SortConfidence then PIIFinding.confidence a = PIIFinding.confidence b
      else if sf = SortRiskLevel then risk_rank (risk_level a) = risk_rank (risk_level b)
      else ck (sort_text sf a) = ck (sort_text sf b))"


definition ok_response :: TestConnectionResponse where
  "ok_response = \<lparr>success = True, TestResult.message = ''Connected'', tables_found = 3\<rparr>"

definition timeout_error :: RequestError where
  "timeout_error =
     \<lparr>detail = Some ''connection timeout'',
      RequestError.message = Some ''Request failed with status code 500''\<rparr>"

definition a_finding :: "string \<Rightarrow> string \<Rightarrow> string \<Rightarrow> rat \<Rightarrow> PIIFinding" where
  "a_finding tbl col risk conf =
     \<lparr>PIIFinding.table = tbl, column = col, pii_type = ''email_address'',
      confidence = conf, classifier = ''regex'', risk_level = risk,
      encryption_status = ''plaintext'', purpose = []\<rparr>"

definition a_scan :: "PIIFinding list \<Rightarrow> HeatmapCell list \<Rightarrow> TableStats list \<Rightarrow> ScanResponse" where
  "a_scan fs hs ts =
     \<lparr>scan_id = ''scan-1'', score = 82,
      summary = \<lparr>tables_scanned = 0, tables_with_pii = 0, total_pii_columns = 0,
                 consent_fields = 0, high_risk_fields = 0, pii_types_found = []\<rparr>,
      findings = fs, consent_mappings = [], heatmap = hs, table_stats = ts,
      estimated_data_subjects = 0, scanned_at = ''2026-01-01T00:00:00Z''\<rparr>"


section \<open>Auxiliary facts\<close>

lemmas handler_defs = handleTest_def handleTest_begin_def handleTest_settle_def
  handleScan_def handleScan_begin_def handleScan_settle_def handleNewScan_def

lemmas gate_defs = scan_action_enabled_def test_action_enabled_def form_shown_def
  scan_button_disabled_def test_button_disabled_def

lemma error_text_cases:
  "error_text err fallback =
     (case detail err of
        Some d \<Rightarrow> if d \<noteq> [] then d
                  else (case RequestError.message err of
                          Some m \<Rightarrow> if m \<noteq> [] then m else fallback | None \<Rightarrow> fallback)
      | None \<Rightarrow> (case RequestError.message err of
                   Some m \<Rightarrow> if m \<noteq> [] then m else fallback | None \<Rightarrow> fallback))"
  by (simp add: error_text_def js_or_def truthy_def split: option.splits)

lemma reachable_flags:
  "reachable s \<Longrightarrow> (isScanning s \<longrightarrow> state s = Scanning) \<and> (isTesting s \<longrightarrow> testResult s = None)"
proof (induction rule: reachable.induct)
  case start
  show ?case by (simp add: initial_def)
next
  case (step s e)
  then show ?case
    by (cases e) (auto simp: handler_defs gate_defs canScan_def split: sum.splits)
qed

lemma previous_default_database_eq:
  "previous_default_database p = map_option DbDefault.database (map_of DB_DEFAULTS (db_type p))"
  by (simp add: previous_default_database_def js_get_def split: option.splits)

lemma new_defaults_option:
  "dbType \<in> set db_type_options \<Longrightarrow>
     \<exists>d. map_of DB_DEFAULTS dbType = Some d \<and> new_defaults dbType = Some d"
  by (auto simp: db_type_options_def DB_DEFAULTS_def new_defaults_def js_get_def)

text \<open>Below \<open>2^53\<close> the additions are exact.\<close>

lemma to_double_exact: "\<bar>x\<bar> < 2 ^ 53 \<Longrightarrow> to_double x = Finite x"
proof -
  assume a: "\<bar>x\<bar> < 2 ^ 53"
  then have m: "nat \<bar>x\<bar> < 2 ^ 53" by (simp add: nat_less_iff)
  then have s: "spacing (nat \<bar>x\<bar>) = 1" by (simp add: spacing.simps)
  have r: "round_nat (nat \<bar>x\<bar>) = nat \<bar>x\<bar>" by (simp add: round_nat_def s)
  have "(2::nat) ^ 53 \<le> 2 ^ 1024" by simp
  with m have "\<not> 2 ^ 1024 \<le> nat \<bar>x\<bar>" by linarith
  then show ?thesis by (simp add: to_double_def r Let_def)
qed

lemma foldl_js_plus:
  "\<bar>a\<bar> + (\<Sum>t\<leftarrow>ts. \<bar>g t\<bar>) < 2 ^ 53 \<Longrightarrow>
     foldl (\<lambda>sum t. js_plus sum (g t)) (Finite a) ts = Finite (a + (\<Sum>t\<leftarrow>ts. g t))"
proof (induction ts arbitrary: a)
  case Nil
  show ?case by simp
next
  case (Cons t ts)
  have nonneg: "0 \<le> (\<Sum>t\<leftarrow>ts. \<bar>g t\<bar>)" by (induction ts) auto
  have small: "\<bar>a + g t\<bar> < 2 ^ 53" using Cons.prems nonneg by simp
  have next_bound: "\<bar>a + g t\<bar> + (\<Sum>t\<leftarrow>ts. \<bar>g t\<bar>) < 2 ^ 53" using Cons.prems by simp
  show ?case
    by (simp add: to_double_exact [OF small] Cons.IH [OF next_bound] add.assoc)
qed

text \<open>
  \<open>2^54\<close> is a double; \<open>2^54 - 1\<close> lies halfway between two doubles and rounds to the
  one with the even significand, \<open>2^54\<close>.
\<close>

lemma to_double_2_54: "to_double 18014398509481984 = Finite 18014398509481984"
  by (simp add: to_double_def round_nat_def spacing.simps)

lemma to_double_2_54_minus_1: "to_double 18014398509481983 = Finite 18014398509481984"
  by (simp add: to_double_def round_nat_def spacing.simps)

lemma clamp_abs_sum_le:
  "(\<Sum>t\<leftarrow>ts. \<bar>max 0 (f t)\<bar>) \<le> (\<Sum>t\<leftarrow>ts. \<bar>(f t :: int)\<bar>)"
  by (induction ts) auto

lemma clamp_sum_ge:
  "sum_list (map (f::'a \<Rightarrow> int) ts) \<le> sum_list (map (\<lambda>t. max 0 (f t)) ts)"
  by (induction ts) auto

lemma clamp_sum_eq_iff:
  "sum_list (map (\<lambda>t. max 0 (f t)) ts) = sum_list (map (f::'a \<Rightarrow> int) ts)
     \<longleftrightarrow> (\<forall>t\<in>set ts. 0 \<le> f t)"
proof (induction ts)
  case Nil
  show ?case by simp
next
  case (Cons t ts)
  have ge: "sum_list (map f ts) \<le> sum_list (map (\<lambda>t. max 0 (f t)) ts)"
    by (rule clamp_sum_ge)
  show ?case
  proof (cases "0 \<le> f t")
    case True
    then show ?thesis using Cons by (simp add: max_def)
  next
    case False
    then show ?thesis using ge by (simp add: max_def)
  qed
qed

lemma Set_spread_snoc:
  "Set_spread (xs @ [x]) = (if x \<in> set (Set_spread xs) then Set_spread xs else Set_spread xs @ [x])"
  by (simp add: Set_spread_def)

lemma set_Set_spread: "set (Set_spread xs) = set xs"
  by (induction xs rule: rev_induct) (auto simp: Set_spread_snoc, simp add: Set_spread_def)

lemma distinct_Set_spread: "distinct (Set_spread xs)"
  by (induction xs rule: rev_induct) (auto simp: Set_spread_snoc, simp add: Set_spread_def)

lemma mset_sort_insert: "mset (sort_insert c x ys) = add_mset x (mset ys)"
  by (induction ys) simp_all

lemma mset_Array_sort: "mset (Array_sort c xs) = mset xs"
  by (induction xs) (simp_all add: Array_sort_def mset_sort_insert)

lemma set_Array_sort: "set (Array_sort c xs) = set xs"
  using mset_Array_sort [of c xs] by (metis set_mset_mset)


lemma Set_spread_fold:
  "foldl (\<lambda>acc x. if x \<in> set acc then acc else acc @ [x]) acc xs
     = acc @ filter (\<lambda>x. x \<notin> set acc) (Set_spread xs)"
proof (induction xs rule: rev_induct)
  case Nil
  show ?case by (simp add: Set_spread_def)
next
  case (snoc x xs)
  show ?case
    by (auto simp: snoc Set_spread_snoc set_Set_spread)
qed

lemma Set_spread_Cons: "Set_spread (x # xs) = x # filter (\<lambda>y. y \<noteq> x) (Set_spread xs)"
  using Set_spread_fold [of "[x]" xs] by (simp add: Set_spread_def)

subsection \<open>Sorting\<close>

lemma set_sort_insert: "set (sort_insert c x ys) = insert x (set ys)"
  by (induction ys) auto

lemma filter_sort_insert_out: "\<not> P x \<Longrightarrow> filter P (sort_insert c x ys) = filter P ys"
  by (induction ys) simp_all

lemma filter_sort_insert_in:
  "P x \<Longrightarrow> (\<And>y. y \<in> set ys \<Longrightarrow> P y \<Longrightarrow> sort_compare c x y \<le> 0) \<Longrightarrow>
     filter P (sort_insert c x ys) = x # filter P ys"
  by (induction ys) auto

lemma Array_sort_Cons: "Array_sort c (x # xs) = sort_insert c x (Array_sort c xs)"
  by (simp add: Array_sort_def)

text \<open>
  Elements that the comparator never puts strictly after one another keep their
  relative order in the insertion sort.
\<close>

lemma Array_sort_stable:
  "(\<And>x y. x \<in> set xs \<Longrightarrow> y \<in> set xs \<Longrightarrow> P x \<Longrightarrow> P y \<Longrightarrow> sort_compare c x y \<le> 0) \<Longrightarrow>
     filter P (Array_sort c xs) = filter P xs"
proof (induction xs)
  case Nil
  show ?case by (simp add: Array_sort_def)
next
  case (Cons x xs)
  have IH: "filter P (Array_sort c xs) = filter P xs"
    by (rule Cons.IH) (simp add: Cons.prems)
  show ?case
  proof (cases "P x")
    case True
    have "filter P (sort_insert c x (Array_sort c xs)) = x # filter P (Array_sort c xs)"
      using True
      by (rule filter_sort_insert_in [of P]) (simp add: set_Array_sort Cons.prems True)
    then show ?thesis using True IH by (simp add: Array_sort_Cons)
  next
    case False
    then show ?thesis using IH by (simp add: Array_sort_Cons filter_sort_insert_out)
  qed
qed

text \<open>
  When the comparator agrees with a key into a linear order, the sort is the library's
  stable sort by that key.
\<close>

lemma sort_insert_insort_key:
  "(\<And>y. y \<in> set ys \<Longrightarrow> (sort_compare c x y \<le> 0) = (k x \<le> k y)) \<Longrightarrow>
     sort_insert c x ys = insort_key k x ys"
  by (induction ys) simp_all

lemma Array_sort_sort_key:
  "(\<And>x y. x \<in> set xs \<Longrightarrow> y \<in> set xs \<Longrightarrow> (sort_compare c x y \<le> 0) = (k x \<le> k y)) \<Longrightarrow>
     Array_sort c xs = sort_key k xs"
proof (induction xs)
  case Nil
  show ?case by (simp add: Array_sort_def)
next
  case (Cons x xs)
  have IH: "Array_sort c xs = sort_key k xs"
    by (rule Cons.IH) (simp add: Cons.prems)
  have "sort_insert c x (sort_key k xs) = insort_key k x (sort_key k xs)"
    by (rule sort_insert_insort_key) (simp add: Cons.prems)
  then show ?case by (simp add: Array_sort_Cons IH)
qed

lemma risk_rank_plain:
  "r \<notin> set object_prototype_keys \<Longrightarrow> risk_rank r = Some (rank_of r)"
  by (simp add: risk_rank_def rank_of_def js_get_def split: option.splits)

lemma rank_of_values:
  "rank_of ''critical'' = 0" "rank_of ''high'' = 1" "rank_of ''medium'' = 2"
  "rank_of ''low'' = 3"
  "r \<notin> {''critical'', ''high'', ''medium'', ''low''} \<Longrightarrow> rank_of r = 4"
  by (simp_all add: rank_of_def RISK_ORDER_def)

lemma confidence_sort_key:
  "apply_sort ck SortConfidence asc items
     = sort_key (\<lambda>f. if asc then PIIFinding.confidence f else - PIIFinding.confidence f) items"
  unfolding apply_sort_def
  by (rule Array_sort_sort_key) (simp add: sort_compare_def compare_findings_def)

lemma same_key_compare:
  "same_key ck sf a x \<Longrightarrow> same_key ck sf a y \<Longrightarrow>
     sort_compare (compare_findings ck sf asc) x y \<le> 0"
  by (auto simp: same_key_def sort_compare_def compare_findings_def js_minus_def
      localeCompare_def split: option.splits if_splits)

subsection \<open>Grouping\<close>

lemma map_of_tabulate:
  "map_of (map (\<lambda>k. (k, g k)) ks) t = (if t \<in> set ks then Some (g t) else None)"
  by (induction ks) auto

lemma update_tabulate_old:
  "distinct ks \<Longrightarrow> k \<in> set ks \<Longrightarrow>
     AList.update k v (map (\<lambda>t. (t, g t)) ks) = map (\<lambda>t. (t, if t = k then v else g t)) ks"
  by (induction ks) auto

lemma update_tabulate_new:
  "k \<notin> set ks \<Longrightarrow>
     AList.update k v (map (\<lambda>t. (t, g t)) ks) = map (\<lambda>t. (t, g t)) ks @ [(k, v)]"
  by (induction ks) auto

lemma js_get_group_spec:
  "js_get (group_spec pre) t =
     (if t \<in> PIIFinding.table ` set pre then Own (filter (\<lambda>g. PIIFinding.table g = t) pre)
      else if t \<in> set object_prototype_keys then Inherited else Undefined)"
  by (simp add: js_get_def group_spec_def map_of_tabulate set_Set_spread)

lemma group_spec_snoc_old:
  assumes "PIIFinding.table f \<in> PIIFinding.table ` set pre"
  shows "group_spec (pre @ [f])
    = AList.update (PIIFinding.table f)
        (filter (\<lambda>g. PIIFinding.table g = PIIFinding.table f) pre @ [f]) (group_spec pre)"
proof -
  have seen: "PIIFinding.table f \<in> set (Set_spread (map PIIFinding.table pre))"
    using assms by (simp add: set_Set_spread)
  have keys: "Set_spread (map PIIFinding.table (pre @ [f])) = Set_spread (map PIIFinding.table pre)"
    using seen by (simp add: Set_spread_snoc)
  show ?thesis
    by (simp add: group_spec_def keys update_tabulate_old [OF distinct_Set_spread seen]
        del: map_append)
qed

lemma group_spec_snoc_new:
  assumes "PIIFinding.table f \<notin> PIIFinding.table ` set pre"
  shows "group_spec (pre @ [f]) = AList.update (PIIFinding.table f) [f] (group_spec pre)"
proof -
  have unseen: "PIIFinding.table f \<notin> set (Set_spread (map PIIFinding.table pre))"
    using assms by (simp add: set_Set_spread)
  have keys: "Set_spread (map PIIFinding.table (pre @ [f]))
      = Set_spread (map PIIFinding.table pre) @ [PIIFinding.table f]"
    using unseen by (simp add: Set_spread_snoc)
  have none: "filter (\<lambda>g. PIIFinding.table g = PIIFinding.table f) pre = []"
    using assms by (induction pre) auto
  have others: "map (\<lambda>t. (t, filter (\<lambda>g. PIIFinding.table g = t) (pre @ [f])))
                  (Set_spread (map PIIFinding.table pre))
      = map (\<lambda>t. (t, filter (\<lambda>g. PIIFinding.table g = t) pre))
                  (Set_spread (map PIIFinding.table pre))"
    using unseen by (auto simp: map_eq_conv)
  have "group_spec (pre @ [f])
      = map (\<lambda>t. (t, filter (\<lambda>g. PIIFinding.table g = t) (pre @ [f])))
          (Set_spread (map PIIFinding.table pre))
        @ [(PIIFinding.table f,
            filter (\<lambda>g. PIIFinding.table g = PIIFinding.table f) (pre @ [f]))]"
    unfolding group_spec_def keys by simp
  also have "\<dots> = group_spec pre @ [(PIIFinding.table f, [f])]"
    unfolding others by (simp add: none group_spec_def)
  finally have spec: "group_spec (pre @ [f]) = group_spec pre @ [(PIIFinding.table f, [f])]" .
  have "AList.update (PIIFinding.table f) [f] (group_spec pre)
      = group_spec pre @ [(PIIFinding.table f, [f])]"
    unfolding group_spec_def by (rule update_tabulate_new [OF unseen])
  with spec show ?thesis by simp
qed

lemma group_step_spec:
  "group_step (group_spec pre) f =
     (if PIIFinding.table f \<in> set object_prototype_keys
         \<and> PIIFinding.table f \<notin> PIIFinding.table ` set pre
      then Inl TypeError else Inr (group_spec (pre @ [f])))"
  by (simp add: group_step_def js_get_group_spec group_spec_snoc_old group_spec_snoc_new)

lemma group_loop_spec:
  "group_loop (group_spec pre) fs =
     (if \<exists>f\<in>set fs. PIIFinding.table f \<in> set object_prototype_keys
                    \<and> PIIFinding.table f \<notin> PIIFinding.table ` set pre
      then Inl TypeError else Inr (group_spec (pre @ fs)))"
proof (induction fs arbitrary: pre)
  case Nil
  show ?case by simp
next
  case (Cons f fs)
  show ?case
  proof (cases "PIIFinding.table f \<in> set object_prototype_keys
         \<and> PIIFinding.table f \<notin> PIIFinding.table ` set pre")
    case True
    then show ?thesis by (simp add: group_step_spec)
  next
    case False
    then have "group_loop (group_spec pre) (f # fs) = group_loop (group_spec (pre @ [f])) fs"
      by (simp only: group_loop.simps group_step_spec if_False sum.case)
    also have "\<dots> = (if \<exists>g\<in>set fs. PIIFinding.table g \<in> set object_prototype_keys
                    \<and> PIIFinding.table g \<notin> PIIFinding.table ` set (pre @ [f])
      then Inl TypeError else Inr (group_spec ((pre @ [f]) @ fs)))"
      by (rule Cons.IH)
    also have "\<dots> = (if \<exists>g\<in>set (f # fs). PIIFinding.table g \<in> set object_prototype_keys
                    \<and> PIIFinding.table g \<notin> PIIFinding.table ` set pre
      then Inl TypeError else Inr (group_spec (pre @ f # fs)))"
      using False by auto
    finally show ?thesis .
  qed
qed

text \<open>
  The grouping loop throws exactly when some table name is a name that
  \<open>Object.prototype\<close> provides; otherwise it builds the groups of \<open>group_spec\<close>.
\<close>

lemma groupedFindings_result:
  "groupedFindings items =
     (if \<exists>f\<in>set items. PIIFinding.table f \<in> set object_prototype_keys
      then Inl TypeError else Inr (group_spec items))"
  using group_loop_spec [of "[]" items]
  by (simp add: groupedFindings_def group_spec_def Set_spread_def)

lemma mset_partition_by_key:
  "distinct ks \<Longrightarrow>
     mset (concat (map (\<lambda>k. filter (\<lambda>x. key x = k) xs) ks))
       = filter_mset (\<lambda>x. key x \<in> set ks) (mset xs)"
proof (induction ks)
  case Nil
  show ?case by simp
next
  case (Cons k ks)
  have "filter_mset (\<lambda>x. key x \<in> set (k # ks)) (mset xs)
      = filter_mset (\<lambda>x. key x = k) (mset xs) + filter_mset (\<lambda>x. key x \<in> set ks) (mset xs)"
    using Cons.prems by (induction xs) auto
  with Cons show ?case by simp
qed

lemma map_fst_group_spec: "map fst (group_spec items) = Set_spread (map PIIFinding.table items)"
  by (simp add: group_spec_def comp_def)

lemma mset_concat_group_spec: "mset (concat (map snd (group_spec items))) = mset items"
proof -
  have "map snd (group_spec items)
      = map (\<lambda>t. filter (\<lambda>f. PIIFinding.table f = t) items)
          (Set_spread (map PIIFinding.table items))"
    by (simp add: group_spec_def comp_def)
  then have "mset (concat (map snd (group_spec items)))
      = filter_mset (\<lambda>f. PIIFinding.table f \<in> set (Set_spread (map PIIFinding.table items)))
          (mset items)"
    by (simp only: mset_partition_by_key [OF distinct_Set_spread])
  also have "\<dots> = mset items"
    by (simp add: set_Set_spread filter_mset_eq_conv)
  finally show ?thesis .
qed

lemma Object_entries_plain:
  "\<forall>kv\<in>set obj. \<not> is_array_index (fst kv) \<Longrightarrow> Object_entries obj = obj"
  by (simp add: Object_entries_def filter_empty_conv[THEN iffD2] filter_id_conv[THEN iffD2])

lemma mset_Object_entries: "mset (Object_entries obj) = mset obj"
  by (simp add: Object_entries_def)

lemma set_Object_entries: "set (Object_entries obj) = set obj"
  using mset_Object_entries [of obj] by (metis set_mset_mset)

lemma mset_concat_perm:
  assumes "mset xss = mset yss"
  shows "mset (concat xss) = mset (concat yss)"
proof -
  have "mset (concat zs) = sum_mset (image_mset mset (mset zs))" for zs :: "'a list list"
    by (simp add: mset_concat flip: sum_mset_sum_list)
  then show ?thesis using assms by simp
qed

lemma mset_concat_entries:
  "mset (concat (map snd (Object_entries obj))) = mset (concat (map snd obj))"
  by (rule mset_concat_perm) (simp add: mset_Object_entries)

lemma distinct_keys_Object_entries:
  "distinct (map fst (Object_entries obj)) = distinct (map fst obj)"
  by (rule mset_eq_imp_distinct_iff) (simp add: mset_Object_entries)

subsection \<open>Heatmap\<close>

lemma heatmap_key_inj:
  "CHR ''|'' \<notin> set t \<Longrightarrow> CHR ''|'' \<notin> set t' \<Longrightarrow> heatmap_key t p = heatmap_key t' p' \<Longrightarrow>
     t = t' \<and> p = p'"
proof (induction t arbitrary: t')
  case Nil
  then show ?case by (cases t') (auto simp: heatmap_key_def)
next
  case (Cons c cs)
  then show ?case by (cases t') (auto simp: heatmap_key_def)
qed

lemma Map_get_last:
  "Map_get (map (\<lambda>h. (key h, h)) cells) k
     = (case filter (\<lambda>h. key h = k) cells of [] \<Rightarrow> None | h # hs \<Rightarrow> Some (last (h # hs)))"
proof (induction cells rule: rev_induct)
  case Nil
  show ?case by (simp add: Map_get_def)
next
  case (snoc x xs)
  then show ?case
    by (auto simp: Map_get_def split: list.splits)
qed


section \<open>The workflow controller\<close>

text \<open>
  What a failed scan does in general: the workflow state reverts to \<open>connect\<close>, the
  extracted error message (never empty) becomes the top-level error, the scanning flag
  is cleared, and neither the stored test result nor the stored scan result is touched.
  Wherever a scan can be started there is no stored scan result, so there is none after
  the failure either.
\<close>

lemma handleScan_failure:
  "state (handleScan (Inl err) s) = Connect
   \<and> error (handleScan (Inl err) s) = Some (error_text err ''Scan failed'')
   \<and> error_text err ''Scan failed'' \<noteq> []
   \<and> isScanning (handleScan (Inl err) s) = False
   \<and> testResult (handleScan (Inl err) s) = testResult s
   \<and> scanResult (handleScan (Inl err) s) = scanResult s"
  by (simp add: handler_defs error_text_cases split: option.splits)

lemma reachable_scanResult:
  "reachable s \<Longrightarrow> state s \<noteq> Results \<longrightarrow> scanResult s = None"
proof (induction rule: reachable.induct)
  case start
  show ?case by (simp add: initial_def)
next
  case (step s e)
  note flags = reachable_flags [OF step.hyps(1)]
  from step.IH step.hyps(2) flags show ?case
    by (cases e) (auto simp: handler_defs gate_defs split: sum.splits)
qed

lemma failed_scan_leaves_no_scan_result:
  assumes "reachable s" and "scan_action_enabled s"
  shows "scanResult (handleScan (Inl err) s) = None"
  using reachable_scanResult [OF assms(1)] assms(2)
  by (simp add: handler_defs gate_defs)

text \<open>
  C1. When RunScan fails, the workflow state is to revert to \<open>connect\<close>, the extracted
  error message is to be surfaced as the top-level error, and the test and scan results
  stored before the failed scan are to be cleared. The code reverts the state and
  surfaces the message, and there is no scan result, but it keeps the test result:
  \<open>handleScan\<close> never calls \<open>setTestResult\<close>, unlike \<open>handleNewScan\<close>, the other way back
  to \<open>connect\<close>, which does clear it. After a successful test and a scan rejected with
  the backend detail \<open>connection timeout\<close>, the stored test result is still the
  successful one.
\<close>

theorem handleScan_failure_keeps_test_result:
  "handleScan (Inl timeout_error) (handleTest (Inr ok_response) initial)
   = \<lparr>state = Connect, scanResult = None,
      testResult = Some \<lparr>success = True, TestResult.message = ''Connected''\<rparr>,
      isTesting = False, isScanning = False,
      progressMsg = ''Running PII classifiers across all tables...'',
      error = Some ''connection timeout''\<rparr>"
  by (simp add: handler_defs initial_def error_text_cases TestResult.truncate_def
      timeout_error_def ok_response_def)




text \<open>
  C8, as stated, does not hold: a structured error detail that is present but empty is
  passed over, and the transport-level message is stored instead.
\<close>

theorem handleTest_empty_detail:
  "detail \<lparr>detail = Some [], RequestError.message = Some ''Network Error''\<rparr> = Some []
   \<and> testResult (handleTest (Inl \<lparr>detail = Some [],
          RequestError.message = Some ''Network Error''\<rparr>) initial)
      = Some \<lparr>success = False, TestResult.message = ''Network Error''\<rparr>"
  by (simp add: handler_defs error_text_cases initial_def)

text \<open>
  C8, amended. TestConnection always completes. On a failure it stores
  \<open>{success: false, message}\<close>, where the message is the backend's structured
  error-detail field when that is present and not empty, otherwise the transport-level
  error message when that is present and not empty, otherwise the fallback
  \<open>Connection failed\<close>; on success it stores the response. In both cases the workflow
  state is unchanged and the testing flag is cleared.
\<close>

theorem handleTest_outcome:
  "testResult (handleTest (Inl err) s) =
      Some \<lparr>success = False,
            TestResult.message =
              (case detail err of
                 Some d \<Rightarrow> if d \<noteq> [] then d
                   else (case RequestError.message err of
                           Some m \<Rightarrow> if m \<noteq> [] then m else ''Connection failed''
                         | None \<Rightarrow> ''Connection failed'')
               | None \<Rightarrow> (case RequestError.message err of
                           Some m \<Rightarrow> if m \<noteq> [] then m else ''Connection failed''
                         | None \<Rightarrow> ''Connection failed''))\<rparr>
   \<and> state (handleTest (Inl err) s) = state s
   \<and> isTesting (handleTest (Inl err) s) = False
   \<and> testResult (handleTest (Inr res) s) = Some (TestResult.truncate res)
   \<and> state (handleTest (Inr res) s) = state s
   \<and> isTesting (handleTest (Inr res) s) = False"
  by (simp add: handler_defs error_text_cases)

theorem handleTest_outcome_witness:
  "testResult (handleTest (Inl timeout_error) initial)
     = Some \<lparr>success = False, TestResult.message = ''connection timeout''\<rparr>
   \<and> testResult (handleTest (Inl \<lparr>detail = None, RequestError.message = None\<rparr>) initial)
     = Some \<lparr>success = False, TestResult.message = ''Connection failed''\<rparr>
   \<and> testResult (handleTest (Inr ok_response) initial)
     = Some \<lparr>success = True, TestResult.message = ''Connected''\<rparr>
   \<and> isTesting (handleTest (Inl timeout_error) initial) = False"
  using handleTest_outcome [of timeout_error initial ok_response]
    handleTest_outcome [of "\<lparr>detail = None, RequestError.message = None\<rparr>" initial ok_response]
  by (simp add: timeout_error_def ok_response_def TestResult.truncate_def)


section \<open>The connection form\<close>

text \<open>
  C10. Changing the database type to one of the types the form offers always replaces
  the port with the new type's default port, replaces the database name with the new
  type's default exactly when the current database name equals the previous type's
  default (a customised database name is preserved), and leaves host, schema, user and
  password unchanged.
\<close>

theorem handleDbTypeChange_defaults:
  assumes "dbType \<in> set db_type_options"
  shows "\<exists>d p'. map_of DB_DEFAULTS dbType = Some d
           \<and> handleDbTypeChange dbType p = Some p'
           \<and> db_type p' = dbType
           \<and> ConnectionParams.port p' = DbDefault.port d
           \<and> ConnectionParams.database p' =
               (if Some (ConnectionParams.database p)
                     = map_option DbDefault.database (map_of DB_DEFAULTS (db_type p))
                then DbDefault.database d else ConnectionParams.database p)
           \<and> host p' = host p \<and> schema_name p' = schema_name p
           \<and> user p' = user p \<and> password p' = password p"
proof -
  from new_defaults_option [OF assms] obtain d
    where d: "map_of DB_DEFAULTS dbType = Some d" "new_defaults dbType = Some d"
    by blast
  show ?thesis
    using d by (simp add: handleDbTypeChange_def previous_default_database_eq)
qed

theorem handleDbTypeChange_defaults_witness:
  "''mysql'' \<in> set db_type_options
   \<and> handleDbTypeChange ''mysql'' DEFAULT_PARAMS
       = Some (DEFAULT_PARAMS\<lparr>db_type := ''mysql'', ConnectionParams.port := 3306,
                 ConnectionParams.database := ''testdb''\<rparr>)
   \<and> handleDbTypeChange ''mysql'' (DEFAULT_PARAMS\<lparr>ConnectionParams.database := ''crm''\<rparr>)
       = Some (DEFAULT_PARAMS\<lparr>db_type := ''mysql'', ConnectionParams.port := 3306,
                 ConnectionParams.database := ''crm''\<rparr>)"
proof -
  have h: "''mysql'' \<in> set db_type_options" by (simp add: db_type_options_def)
  from handleDbTypeChange_defaults [OF h, of DEFAULT_PARAMS]
    handleDbTypeChange_defaults [OF h, of "DEFAULT_PARAMS\<lparr>ConnectionParams.database := ''crm''\<rparr>"]
  show ?thesis
    using h by (auto simp: DB_DEFAULTS_def DB_DEFAULTS_postgresql_def DEFAULT_PARAMS_def)
qed


section \<open>The report engine\<close>

text \<open>
  C6. For every finding list, every risk filter and every sort field and direction,
  filtering and then sorting (what the engine does) yields the same rows, each as often,
  as sorting and then filtering; filtering to \<open>critical\<close> and then sorting by
  confidence gives the very list that sorting by confidence and then filtering to
  \<open>critical\<close> gives. The \<open>critical\<close> filter keeps exactly the findings whose risk level is
  \<open>critical\<close>, the \<open>high\<close> filter exactly those whose risk level is \<open>critical\<close> or
  \<open>high\<close>, and \<open>all\<close> keeps everything.
\<close>

theorem filter_sort_independent:
  "mset (sortedFindings ck v data)
     = mset (apply_filter (riskFilter v) (apply_sort ck (sortField v) (sortAsc v) (findings data)))
   \<and> set (sortedFindings ck v data)
     = set (apply_filter (riskFilter v) (apply_sort ck (sortField v) (sortAsc v) (findings data)))
   \<and> apply_sort ck SortConfidence asc (apply_filter FilterCritical items)
     = apply_filter FilterCritical (apply_sort ck SortConfidence asc items)
   \<and> apply_filter FilterCritical items = filter (\<lambda>f. risk_level f = ''critical'') items
   \<and> apply_filter FilterHigh items
     = filter (\<lambda>f. risk_level f = ''critical'' \<or> risk_level f = ''high'') items
   \<and> apply_filter FilterAll items = items"
proof -
  have m: "mset (apply_sort ck sf a (apply_filter rf xs))
      = mset (apply_filter rf (apply_sort ck sf a xs))" for sf a rf xs
    by (simp add: apply_sort_def apply_filter_def mset_Array_sort)
  have "mset (sortedFindings ck v data)
     = mset (apply_filter (riskFilter v) (apply_sort ck (sortField v) (sortAsc v) (findings data)))"
    unfolding sortedFindings_def by (rule m)
  moreover from this have "set (sortedFindings ck v data)
     = set (apply_filter (riskFilter v) (apply_sort ck (sortField v) (sortAsc v) (findings data)))"
    by (metis set_mset_mset)
  moreover have "apply_sort ck SortConfidence asc (apply_filter FilterCritical items)
     = apply_filter FilterCritical (apply_sort ck SortConfidence asc items)"
    by (simp add: confidence_sort_key apply_filter_def filter_sort)
  ultimately show ?thesis
    by (simp add: apply_filter_def)
qed

theorem filter_sort_independent_witness:
  "sortedFindings (length :: string \<Rightarrow> nat)
     \<lparr>sortField = SortConfidence, sortAsc = False, riskFilter = FilterCritical,
      viewMode = Flat, expandedTables = []\<rparr>
     (a_scan [a_finding ''users'' ''email'' ''critical'' (4/5),
              a_finding ''orders'' ''card'' ''high'' (9/10),
              a_finding ''users'' ''ssn'' ''critical'' (19/20)] [] [])
   = [a_finding ''users'' ''ssn'' ''critical'' (19/20),
      a_finding ''users'' ''email'' ''critical'' (4/5)]
   \<and> apply_filter FilterCritical
       (apply_sort (length :: string \<Rightarrow> nat) SortConfidence False
          [a_finding ''users'' ''email'' ''critical'' (4/5),
           a_finding ''orders'' ''card'' ''high'' (9/10),
           a_finding ''users'' ''ssn'' ''critical'' (19/20)])
   = [a_finding ''users'' ''ssn'' ''critical'' (19/20),
      a_finding ''users'' ''email'' ''critical'' (4/5)]"
proof -
  have sorted_first: "apply_sort (length :: string \<Rightarrow> nat) SortConfidence False
       (apply_filter FilterCritical
          [a_finding ''users'' ''email'' ''critical'' (4/5),
           a_finding ''orders'' ''card'' ''high'' (9/10),
           a_finding ''users'' ''ssn'' ''critical'' (19/20)])
     = [a_finding ''users'' ''ssn'' ''critical'' (19/20),
        a_finding ''users'' ''email'' ''critical'' (4/5)]"
    by (simp add: apply_sort_def apply_filter_def Array_sort_def sort_compare_def
        compare_findings_def a_finding_def)
  from filter_sort_independent
    [of "length :: string \<Rightarrow> nat"
        "\<lparr>sortField = SortConfidence, sortAsc = False, riskFilter = FilterCritical,
          viewMode = Flat, expandedTables = []\<rparr>"
        "(a_scan [a_finding ''users'' ''email'' ''critical'' (4/5),
              a_finding ''orders'' ''card'' ''high'' (9/10),
              a_finding ''users'' ''ssn'' ''critical'' (19/20)] [] [])"
        False
        "[a_finding ''users'' ''email'' ''critical'' (4/5),
          a_finding ''orders'' ''card'' ''high'' (9/10),
          a_finding ''users'' ''ssn'' ''critical'' (19/20)]"]
  have "apply_sort (length :: string \<Rightarrow> nat) SortConfidence False
       (apply_filter FilterCritical
          [a_finding ''users'' ''email'' ''critical'' (4/5),
           a_finding ''orders'' ''card'' ''high'' (9/10),
           a_finding ''users'' ''ssn'' ''critical'' (19/20)])
     = apply_filter FilterCritical
       (apply_sort (length :: string \<Rightarrow> nat) SortConfidence False
          [a_finding ''users'' ''email'' ''critical'' (4/5),
           a_finding ''orders'' ''card'' ''high'' (9/10),
           a_finding ''users'' ''ssn'' ''critical'' (19/20)])"
    by blast
  with sorted_first show ?thesis
    by (simp add: sortedFindings_def a_scan_def)
qed

text \<open>
  C7, as stated, does not hold for every table-stats collection: the sums are sums of
  doubles. For the row counts \<open>2^54\<close> and \<open>-1\<close> the unclamped sum \<open>2^54 - 1\<close> is not a
  double and rounds to \<open>2^54\<close>, so the two figures are equal although a row count is
  negative.
\<close>

theorem row_count_figures_rounded:
  "data_volume [\<lparr>TableStats.table = ''events'', row_count = 18014398509481984, pii_columns = 1\<rparr>,
                \<lparr>TableStats.table = ''staging'', row_count = - 1, pii_columns = 0\<rparr>]
     = Finite 18014398509481984
   \<and> total_records [\<lparr>TableStats.table = ''events'', row_count = 18014398509481984, pii_columns = 1\<rparr>,
                    \<lparr>TableStats.table = ''staging'', row_count = - 1, pii_columns = 0\<rparr>]
     = Finite 18014398509481984
   \<and> row_count \<lparr>TableStats.table = ''staging'', row_count = - 1, pii_columns = 0\<rparr> < 0"
  by (simp add: data_volume_def total_records_def to_double_2_54 to_double_2_54_minus_1)

text \<open>
  C7, amended. For every table-stats collection whose row counts are integers with
  absolute values summing to less than \<open>2^53\<close>, the Data Volume stat card shows the sum
  of the per-table row counts with each row count clamped at zero before summing, while
  the Total Records figure of the volume section shows the unclamped sum of the same
  row counts; the two figures differ exactly when some row count is negative. The card
  is part of every report, the volume section of every report for a non-empty
  collection.
\<close>

theorem row_count_figures:
  assumes "(\<Sum>t\<leftarrow>stats. \<bar>row_count t\<bar>) < 2 ^ 53"
  shows "data_volume stats = Finite (\<Sum>t\<leftarrow>stats. max 0 (row_count t))
   \<and> total_records stats = Finite (\<Sum>t\<leftarrow>stats. row_count t)
   \<and> (data_volume stats \<noteq> total_records stats \<longleftrightarrow> (\<exists>t\<in>set stats. row_count t < 0))
   \<and> (ComplianceReport ck v data = Inr r \<longrightarrow>
         card_data_volume r = data_volume (table_stats data)
       \<and> volume_part r =
           (if length (table_stats data) > 0
            then Some \<lparr>shown_total_records = total_records (table_stats data),
                       shown_rows = table_stats data\<rparr>
            else None))"
proof -
  have bound: "\<bar>0::int\<bar> + (\<Sum>t\<leftarrow>stats. \<bar>max 0 (row_count t)\<bar>) < 2 ^ 53"
    using assms clamp_abs_sum_le [of row_count stats] by simp
  have clamped: "data_volume stats = Finite (\<Sum>t\<leftarrow>stats. max 0 (row_count t))"
    unfolding data_volume_def
    using foldl_js_plus [where a = 0 and ts = stats and g = "\<lambda>t. max 0 (row_count t)", OF bound]
    by simp
  have plain: "total_records stats = Finite (\<Sum>t\<leftarrow>stats. row_count t)"
    unfolding total_records_def
    using foldl_js_plus [where a = 0 and ts = stats and g = row_count] assms by simp
  have differ: "data_volume stats \<noteq> total_records stats \<longleftrightarrow> (\<exists>t\<in>set stats. row_count t < 0)"
    unfolding clamped plain
    using clamp_sum_eq_iff [of row_count stats] by (auto simp: not_le)
  have shown: "ComplianceReport ck v data = Inr r \<longrightarrow>
         card_data_volume r = data_volume (table_stats data)
       \<and> volume_part r =
           (if length (table_stats data) > 0
            then Some \<lparr>shown_total_records = total_records (table_stats data),
                       shown_rows = table_stats data\<rparr>
            else None)"
    by (auto simp: ComplianceReport_def split: sum.splits)
  from clamped plain differ shown show ?thesis by blast
qed

theorem row_count_figures_witness:
  "(\<Sum>t\<leftarrow>[\<lparr>TableStats.table = ''users'', row_count = 120, pii_columns = 2\<rparr>,
          \<lparr>TableStats.table = ''staging'', row_count = - 5, pii_columns = 0\<rparr>].
      \<bar>row_count t\<bar>) < 2 ^ 53
   \<and> data_volume [\<lparr>TableStats.table = ''users'', row_count = 120, pii_columns = 2\<rparr>,
                  \<lparr>TableStats.table = ''staging'', row_count = - 5, pii_columns = 0\<rparr>]
       = Finite 120
   \<and> total_records [\<lparr>TableStats.table = ''users'', row_count = 120, pii_columns = 2\<rparr>,
                    \<lparr>TableStats.table = ''staging'', row_count = - 5, pii_columns = 0\<rparr>]
       = Finite 115
   \<and> (\<exists>r. ComplianceReport (length :: string \<Rightarrow> nat) initial_view
          (a_scan [] []
             [\<lparr>TableStats.table = ''users'', row_count = 120, pii_columns = 2\<rparr>,
              \<lparr>TableStats.table = ''staging'', row_count = - 5, pii_columns = 0\<rparr>]) = Inr r
       \<and> card_data_volume r = Finite 120
       \<and> map_option shown_total_records (volume_part r) = Some (Finite 115))"
proof -
  have h: "(\<Sum>t\<leftarrow>[\<lparr>TableStats.table = ''users'', row_count = 120, pii_columns = 2\<rparr>,
          \<lparr>TableStats.table = ''staging'', row_count = - 5, pii_columns = 0\<rparr>].
      \<bar>row_count t\<bar>) < 2 ^ 53"
    by simp
  obtain r where r: "ComplianceReport (length :: string \<Rightarrow> nat) initial_view
          (a_scan [] []
             [\<lparr>TableStats.table = ''users'', row_count = 120, pii_columns = 2\<rparr>,
              \<lparr>TableStats.table = ''staging'', row_count = - 5, pii_columns = 0\<rparr>]) = Inr r"
    by (simp add: ComplianceReport_def groupedFindings_result sortedFindings_def
        apply_sort_def apply_filter_def Array_sort_def a_scan_def initial_view_def)
  note fig = row_count_figures
    [OF h, of "length :: string \<Rightarrow> nat" initial_view
        "a_scan [] []
             [\<lparr>TableStats.table = ''users'', row_count = 120, pii_columns = 2\<rparr>,
              \<lparr>TableStats.table = ''staging'', row_count = - 5, pii_columns = 0\<rparr>]" r]
  from fig have sums:
    "data_volume [\<lparr>TableStats.table = ''users'', row_count = 120, pii_columns = 2\<rparr>,
                  \<lparr>TableStats.table = ''staging'', row_count = - 5, pii_columns = 0\<rparr>]
       = Finite 120"
    "total_records [\<lparr>TableStats.table = ''users'', row_count = 120, pii_columns = 2\<rparr>,
                    \<lparr>TableStats.table = ''staging'', row_count = - 5, pii_columns = 0\<rparr>]
       = Finite 115"
    by simp_all
  from fig r sums have "card_data_volume r = Finite 120"
    and "map_option shown_total_records (volume_part r) = Some (Finite 115)"
    by (simp_all add: a_scan_def)
  with h r sums show ?thesis by blast
qed

text \<open>
  Sorting in general, where the comparator is consistent, that is for every sort field
  and both directions as long as a sort by risk level meets no risk level that is a
  name \<open>Object.prototype\<close> provides. Findings with the same sort key keep their relative
  order. A sort by risk level is the stable sort by rank: ascending it puts critical
  before high before medium before low before everything else.
\<close>

lemma apply_sort_stable:
  assumes "sf = SortRiskLevel \<longrightarrow> (\<forall>f\<in>set items. risk_level f \<notin> set object_prototype_keys)"
  shows "filter (same_key ck sf a) (apply_sort ck sf asc items) = filter (same_key ck sf a) items"
  unfolding apply_sort_def
  by (rule Array_sort_stable) (rule same_key_compare)

lemma risk_sort_by_rank:
  assumes "\<forall>f\<in>set items. risk_level f \<notin> set object_prototype_keys"
  shows "apply_sort ck SortRiskLevel True items = sort_key (\<lambda>f. rank_of (risk_level f)) items"
    and "apply_sort ck SortRiskLevel False items = sort_key (\<lambda>f. - rank_of (risk_level f)) items"
  unfolding apply_sort_def
  by (rule Array_sort_sort_key;
      simp add: sort_compare_def compare_findings_def js_minus_def risk_rank_plain assms)+

lemma risk_sort_sorted:
  assumes "\<forall>f\<in>set items. risk_level f \<notin> set object_prototype_keys"
  shows "sorted (map (\<lambda>f. rank_of (risk_level f)) (apply_sort ck SortRiskLevel True items))"
  by (simp add: risk_sort_by_rank [OF assms])

text \<open>
  C3. For every finding list, sorting by risk level ascending is to order findings
  critical before high before medium before low, with any other risk value after all of
  them, ties keeping their original order. The code does not do this for a risk value
  that names a member of \<open>Object.prototype\<close>: \<open>RISK_ORDER[r]\<close> is then a built-in
  function, \<open>?? 4\<close> does not apply, every comparison with such a finding yields \<open>NaN\<close>,
  and the finding stays where it was. Here a finding with risk level \<open>constructor\<close>
  stays in front of a critical one under the default view (risk level, ascending, no
  filter): the only comparison there is to make answers \<open>NaN\<close>, so a stable sort
  leaves the two in place.
\<close>

theorem risk_sort_inherited_name:
  "sortedFindings ck initial_view
     (a_scan [a_finding ''orders'' ''note'' ''constructor'' (1/2),
              a_finding ''users'' ''email'' ''critical'' (19/20)] [] [])
   = [a_finding ''orders'' ''note'' ''constructor'' (1/2),
      a_finding ''users'' ''email'' ''critical'' (19/20)]"
  by (simp add: sortedFindings_def initial_view_def apply_filter_def apply_sort_def
      Array_sort_def sort_compare_def compare_findings_def js_minus_def risk_rank_def
      js_get_def RISK_ORDER_def object_prototype_keys_def a_finding_def a_scan_def)

text \<open>
  The heatmap in general. The section is shown exactly for a non-empty cell collection;
  its matrix has one row per distinct table and in each row one cell per distinct PII
  type, in first-appearance order. When no table name contains the separator \<open>|\<close>, a
  position resolves to the last source cell of exactly that pair, and to nothing when
  there is none.
\<close>

lemma heatmap_section_shown:
  "heatmap_section data
     = (if heatmap data = [] then None else Some (heatmap_rows (heatmap_of data)))"
proof -
  have "Set_spread (map HeatmapCell.pii_type (heatmap data)) = [] \<longleftrightarrow> heatmap data = []"
    using set_Set_spread [of "map HeatmapCell.pii_type (heatmap data)"]
    by (metis map_is_Nil_conv set_empty)
  then show ?thesis by (simp add: heatmap_section_def heatmap_of_def)
qed

lemma heatmap_rows_size:
  "map fst (heatmap_rows hm) = tables hm
   \<and> (\<forall>row\<in>set (heatmap_rows hm). map fst (snd row) = piiTypes hm)
   \<and> length (concat (map snd (heatmap_rows hm))) = length (tables hm) * length (piiTypes hm)"
  by (simp add: heatmap_rows_def length_concat comp_def sum_list_triv)

lemma heatmap_cell_exact:
  assumes "\<forall>h\<in>set (heatmap data). CHR ''|'' \<notin> set (HeatmapCell.table h)"
    and "CHR ''|'' \<notin> set tbl"
  shows "heatmap_cell (heatmap_of data) tbl pt
     = (case filter (\<lambda>h. HeatmapCell.table h = tbl \<and> HeatmapCell.pii_type h = pt)
              (heatmap data) of
          [] \<Rightarrow> None | h # hs \<Rightarrow> Some (last (h # hs)))"
proof -
  have "filter (\<lambda>h. heatmap_key (HeatmapCell.table h) (HeatmapCell.pii_type h)
                    = heatmap_key tbl pt) (heatmap data)
      = filter (\<lambda>h. HeatmapCell.table h = tbl \<and> HeatmapCell.pii_type h = pt) (heatmap data)"
    using assms by (intro filter_cong refl) (auto dest: heatmap_key_inj)
  then show ?thesis
    by (simp add: heatmap_cell_def heatmap_of_def Map_get_last)
qed

text \<open>
  C4. For every non-empty heatmap cell collection the rendered matrix is to have
  exactly |tables| times |pii_types| cells, each position (table, pii_type) resolving
  to the source cell of that exact pair when one exists and to a not-found default
  otherwise. The code keys the lookup by the two names joined with \<open>|\<close>, so two pairs
  whose joined names coincide share one entry. Here the source has a found cell for
  (\<open>a|b\<close>, \<open>c\<close>) and a not-found cell for (\<open>a\<close>, \<open>b|c\<close>); the matrix has its four cells,
  but position (\<open>a|b\<close>, \<open>c\<close>) resolves to the cell of (\<open>a\<close>, \<open>b|c\<close>) and is drawn as not
  found.
\<close>

theorem heatmap_key_collision:
  "heatmap_section
     (a_scan []
        [\<lparr>HeatmapCell.table = ''a|b'', pii_type = ''c'', found = True, confidence = 1\<rparr>,
         \<lparr>HeatmapCell.table = ''a'', pii_type = ''b|c'', found = False, confidence = 0\<rparr>] [])
   = Some
      [(''a|b'',
         [(''c'', Some \<lparr>HeatmapCell.table = ''a'', pii_type = ''b|c'', found = False,
                         confidence = 0\<rparr>),
          (''b|c'', None)]),
       (''a'',
         [(''c'', None),
          (''b|c'', Some \<lparr>HeatmapCell.table = ''a'', pii_type = ''b|c'', found = False,
                           confidence = 0\<rparr>)])]
   \<and> cell_found (heatmap_cell
        (heatmap_of (a_scan []
          [\<lparr>HeatmapCell.table = ''a|b'', pii_type = ''c'', found = True, confidence = 1\<rparr>,
           \<lparr>HeatmapCell.table = ''a'', pii_type = ''b|c'', found = False, confidence = 0\<rparr>]
          [])) ''a|b'' ''c'') = False"
  by (simp add: heatmap_section_def heatmap_of_def heatmap_rows_def heatmap_cell_def
      Map_get_def heatmap_key_def Set_spread_def cell_found_def a_scan_def)

text \<open>
  Grouping in general. Whenever the grouping returns, the groups' findings taken
  together are the findings of the input list, each as often as there. It returns
  exactly when no table name is a name that \<open>Object.prototype\<close> provides; then the
  group keys are distinct and are exactly the table names present, and each group holds
  the findings of its table in the order of the input. When in addition no table name
  is an array-index numeral, the groups appear in first-seen table order.
\<close>

lemma grouping_no_loss:
  assumes "groupedFindings items = Inr groups"
  shows "mset (concat (map snd (Object_entries groups))) = mset items"
proof -
  from assms have "groups = group_spec items"
    by (simp add: groupedFindings_result split: if_splits)
  then show ?thesis
    by (simp only: mset_concat_entries mset_concat_group_spec)
qed

lemma grouping_partition:
  assumes "\<forall>f\<in>set items. PIIFinding.table f \<notin> set object_prototype_keys"
  shows "\<exists>groups. groupedFindings items = Inr groups
      \<and> mset (concat (map snd (Object_entries groups))) = mset items
      \<and> distinct (map fst (Object_entries groups))
      \<and> set (map fst (Object_entries groups)) = PIIFinding.table ` set items
      \<and> (\<forall>g\<in>set (Object_entries groups).
            snd g = filter (\<lambda>f. PIIFinding.table f = fst g) items \<and> snd g \<noteq> [])
      \<and> ((\<forall>f\<in>set items. \<not> is_array_index (PIIFinding.table f))
           \<longrightarrow> map fst (Object_entries groups) = Set_spread (map PIIFinding.table items))"
proof -
  have run: "groupedFindings items = Inr (group_spec items)"
    using assms by (simp add: groupedFindings_result)
  have members: "\<forall>g\<in>set (group_spec items).
            snd g = filter (\<lambda>f. PIIFinding.table f = fst g) items \<and> snd g \<noteq> []"
    by (auto simp: group_spec_def set_Set_spread filter_empty_conv)
  have keys: "set (map fst (group_spec items)) = PIIFinding.table ` set items"
    by (simp only: map_fst_group_spec set_Set_spread set_map)
  have order: "map fst (Object_entries (group_spec items)) = Set_spread (map PIIFinding.table items)"
    if "\<forall>f\<in>set items. \<not> is_array_index (PIIFinding.table f)"
  proof -
    have "\<forall>kv\<in>set (group_spec items). \<not> is_array_index (fst kv)"
      using that by (auto simp: group_spec_def set_Set_spread)
    then have "Object_entries (group_spec items) = group_spec items"
      by (rule Object_entries_plain)
    then show ?thesis by (simp only: map_fst_group_spec)
  qed
  show ?thesis
  proof (intro exI conjI)
    show "groupedFindings items = Inr (group_spec items)"
      by (rule run)
    show "mset (concat (map snd (Object_entries (group_spec items)))) = mset items"
      by (simp only: mset_concat_entries mset_concat_group_spec)
    show "distinct (map fst (Object_entries (group_spec items)))"
      by (simp only: distinct_keys_Object_entries map_fst_group_spec distinct_Set_spread)
    show "set (map fst (Object_entries (group_spec items))) = PIIFinding.table ` set items"
      using keys by (simp only: set_map set_Object_entries)
    show "\<forall>g\<in>set (Object_entries (group_spec items)).
            snd g = filter (\<lambda>f. PIIFinding.table f = fst g) items \<and> snd g \<noteq> []"
      unfolding set_Object_entries by (rule members)
    show "(\<forall>f\<in>set items. \<not> is_array_index (PIIFinding.table f))
           \<longrightarrow> map fst (Object_entries (group_spec items))
               = Set_spread (map PIIFinding.table items)"
      using order by blast
  qed
qed

text \<open>
  C5. For every sorted-and-filtered finding list, grouping by table is to partition it
  exactly (no loss, no duplication), with the distinct table names present as the group
  keys, the groups in first-seen table order, and within each group the order inherited
  from the sort step. The code keeps the groups as properties of a plain object, and
  that fails the claim in two ways. \<open>Object.entries\<close> lists properties whose names are
  array-index numerals first, in numeric order: for the tables \<open>users\<close> and then
  \<open>2024\<close> the groups come out as \<open>2024\<close>, \<open>users\<close>. And for a table named like a
  member of \<open>Object.prototype\<close> the loop throws, so that there are no groups at all.
\<close>

theorem grouping_not_first_seen:
  "groupedFindings
     [a_finding ''users'' ''email'' ''critical'' (19/20),
      a_finding ''2024'' ''card'' ''high'' (9/10)]
   = Inr [(''users'', [a_finding ''users'' ''email'' ''critical'' (19/20)]),
          (''2024'', [a_finding ''2024'' ''card'' ''high'' (9/10)])]
   \<and> map fst (Object_entries
        [(''users'', [a_finding ''users'' ''email'' ''critical'' (19/20)]),
         (''2024'', [a_finding ''2024'' ''card'' ''high'' (9/10)])])
     = [''2024'', ''users'']
   \<and> groupedFindings [a_finding ''constructor'' ''id'' ''critical'' 1] = Inl TypeError"
  by (simp add: groupedFindings_def group_step_def js_get_def object_prototype_keys_def
      Object_entries_def is_array_index_def index_value_def a_finding_def)

text \<open>
  Rendering in general. A render fails exactly when the table name of some finding that
  passes the risk filter is a name that \<open>Object.prototype\<close> provides. A scan result
  whose collections are all empty renders, with zero in the stat card and without the
  heatmap, consent and table-statistics sections.
\<close>

lemma ComplianceReport_fails_iff:
  "(\<exists>e. ComplianceReport ck v data = Inl e)
     \<longleftrightarrow> (\<exists>f\<in>set (apply_filter (riskFilter v) (findings data)).
            PIIFinding.table f \<in> set object_prototype_keys)"
  by (simp add: ComplianceReport_def groupedFindings_result sortedFindings_def apply_sort_def
      set_Array_sort)

lemma empty_scan_renders:
  "ComplianceReport ck v (a_scan [] [] [])
   = Inr \<lparr>card_data_volume = Finite 0, heatmap_part = None, findings_count = 0,
          grouped_part =
            (if viewMode v = Grouped \<and> riskFilter v = FilterAll then Some [] else None),
          flat_part =
            (if viewMode v = Flat \<or> riskFilter v \<noteq> FilterAll then Some [] else None),
          consent_part = None, volume_part = None\<rparr>"
  by (simp add: ComplianceReport_def sortedFindings_def apply_filter_def apply_sort_def
      Array_sort_def groupedFindings_def Object_entries_def data_volume_def heatmap_section_def
      heatmap_of_def Set_spread_def a_scan_def)

text \<open>
  C9. The report engine is to render every well-typed scan result without error. The
  code does not: the grouping keeps its groups as properties of a plain object, so for
  a finding whose table is named like a member of \<open>Object.prototype\<close> the lookup
  \<open>groups[f.table]\<close> finds a built-in function instead of a missing group, no array is
  created, and \<open>groups[f.table].push(f)\<close> throws a \<open>TypeError\<close> during render. Here a
  single finding in a table named \<open>constructor\<close> fails the render under every view
  state.
\<close>

theorem report_crash_on_inherited_table_name:
  "ComplianceReport ck v (a_scan [a_finding ''constructor'' ''id'' ''critical'' 1] [] [])
   = Inl TypeError"
proof -
  have "sortedFindings ck v (a_scan [a_finding ''constructor'' ''id'' ''critical'' 1] [] [])
      = [a_finding ''constructor'' ''id'' ''critical'' 1]"
    by (simp add: sortedFindings_def apply_filter_def apply_sort_def Array_sort_def
        a_finding_def a_scan_def)
  then show ?thesis
    by (simp add: ComplianceReport_def groupedFindings_result a_finding_def
        object_prototype_keys_def)
qed

end
